theory Spec2Isabelle
  imports Main "HOL-Library.AList" "HOL-Library.Word"
begin

section \<open>The CogSocket protocol engine (cogsocket.js)\<close>

text \<open>
  A shallow embedding of \<^verbatim>\<open>src/cogsocket.js\<close>. The engine object and its private
  record \<^verbatim>\<open>_priv\<close> are records, every function of the module is a HOL function that
  takes the engine and returns the engine it leaves behind, and every exception is a value.

  What lies outside the module is made explicit:
  \<^item> the transport is the list of frames handed to \<^verbatim>\<open>websocket.send\<close> and the number of
    calls of \<^verbatim>\<open>websocket.close\<close>; a frame is the message object given to
    \<^verbatim>\<open>JSON.stringify\<close> (a key whose value is undefined is absent on the wire);
  \<^item> the functions stored in the object graph, the texts of the errors the JavaScript
    runtime raises, its string conversion and its \<^verbatim>\<open>process.platform\<close> are the fields
    of a \<open>host\<close> record that every operation receives;
  \<^item> callbacks and listeners are identified by numbers and their invocations are recorded.
  The object graph is a tree of values: objects of the graph do not share members, and
  their members are plain data or functions (no getters, setters or frozen objects; a
  function of the graph reads and writes the graph only). Reads and writes that go through
  a built-in prototype or through an exotic object (array, string, number, function) have
  the explicit result \<open>Unmodelled\<close>: the embedding does not say what the code does there,
  and the theorems below are about runs that do not end so.
\<close>

subsection \<open>Values\<close>

datatype fn =
    UserFn string            \<comment> \<open>a function of the application's object graph\<close>
  | Hello                    \<comment> \<open>\<^verbatim>\<open>ConnectionObject.hello\<close>\<close>
  | EventSender "string option"  \<comment> \<open>the closure \<^verbatim>\<open>sender\<close> made for a path by a listen request\<close>
  | Builtin string           \<comment> \<open>the member every object inherits from \<^verbatim>\<open>Object.prototype\<close> under this name\<close>

datatype jsval =
    JsUndefined
  | JsNull
  | JsBool bool
  | JsNum int
  | JsStr string
  | JsArr "jsval list"
  | JsObj "(string \<times> jsval) list"
  | JsFun fn
  | JsError jsval string     \<comment> \<open>an instance of \<^verbatim>\<open>Error\<close>: its \<^verbatim>\<open>number\<close> and its \<^verbatim>\<open>message\<close>\<close>

text \<open>What \<^verbatim>\<open>JSON.parse\<close> produces.\<close>

datatype json =
    JNull
  | JBool bool
  | JNum int
  | JStr string
  | JArr "json list"
  | JObj "(string \<times> json) list"

fun ofJson :: "json \<Rightarrow> jsval" where
  "ofJson JNull = JsNull"
| "ofJson (JBool b) = JsBool b"
| "ofJson (JNum n) = JsNum n"
| "ofJson (JStr s) = JsStr s"
| "ofJson (JArr xs) = JsArr (map ofJson xs)"
| "ofJson (JObj ps) = JsObj (map (\<lambda>kv. (fst kv, ofJson (snd kv))) ps)"

text \<open>An absent key of a parsed message reads as undefined.\<close>

definition field :: "json option \<Rightarrow> jsval" where
  "field b = (case b of None \<Rightarrow> JsUndefined | Some j \<Rightarrow> ofJson j)"

text \<open>JavaScript's truthiness, as used by \<^verbatim>\<open>if (x)\<close> and \<^verbatim>\<open>x ? a : b\<close>.\<close>

fun truthy :: "jsval \<Rightarrow> bool" where
  "truthy JsUndefined = False"
| "truthy JsNull = False"
| "truthy (JsBool b) = b"
| "truthy (JsNum n) = (n \<noteq> 0)"
| "truthy (JsStr s) = (s \<noteq> [])"
| "truthy _ = True"

text \<open>A correlation id read from a message: absent, or an integer; 0 is falsy.\<close>

fun truthyId :: "int option \<Rightarrow> bool" where
  "truthyId None = False"
| "truthyId (Some n) = (n \<noteq> 0)"

text \<open>\<^verbatim>\<open>x instanceof Error\<close>.\<close>

fun isError :: "jsval \<Rightarrow> bool" where
  "isError (JsError number text) = True"
| "isError _ = False"

subsection \<open>Results\<close>

datatype 'a res = Ok 'a | Raise jsval | Unmodelled

datatype rterr =
    ReadNullish      \<comment> \<open>TypeError: reading a property of undefined or null\<close>
  | WriteNullish     \<comment> \<open>TypeError: setting a property of undefined or null\<close>
  | NotAFunction     \<comment> \<open>TypeError: calling a value that is not a function\<close>
  | SyntaxErr        \<comment> \<open>SyntaxError of \<^verbatim>\<open>JSON.parse\<close>\<close>
  | NotDefined       \<comment> \<open>ReferenceError: an undeclared identifier\<close>

record host =
  callFn :: "string \<Rightarrow> jsval \<Rightarrow> jsval list \<Rightarrow> jsval \<Rightarrow> jsval res \<times> jsval"
    \<comment> \<open>name, \<^verbatim>\<open>this\<close>, arguments, root graph: the result and the graph it leaves\<close>
  toStr :: "jsval \<Rightarrow> string"
  rtText :: "rterr \<Rightarrow> string"
  platform :: "string option"   \<comment> \<open>\<^verbatim>\<open>process.platform\<close>; None where \<^verbatim>\<open>process\<close> is not declared\<close>

text \<open>An error raised by the runtime is an \<^verbatim>\<open>Error\<close> instance without a \<^verbatim>\<open>number\<close>.\<close>

definition rtError :: "host \<Rightarrow> rterr \<Rightarrow> jsval" where
  "rtError h e = JsError JsUndefined (rtText h e)"

subsection \<open>Property access\<close>

text \<open>
  The own members of \<^verbatim>\<open>Object.prototype\<close>, which every plain object inherits, with the
  \<^verbatim>\<open>length\<close> of each (the accessor \<^verbatim>\<open>__proto__\<close> yields the prototype object, which has
  no \<^verbatim>\<open>length\<close>).
\<close>

definition objectPrototype :: "(string \<times> int option) list" where
  "objectPrototype =
    [(''constructor'', Some 1), (''__defineGetter__'', Some 2), (''__defineSetter__'', Some 2),
     (''hasOwnProperty'', Some 1), (''__lookupGetter__'', Some 1), (''__lookupSetter__'', Some 1),
     (''isPrototypeOf'', Some 1), (''propertyIsEnumerable'', Some 1), (''toString'', Some 0),
     (''valueOf'', Some 0), (''toLocaleString'', Some 0), (''__proto__'', None)]"

definition inherited :: "string \<Rightarrow> bool" where
  "inherited k = (map_of objectPrototype k \<noteq> None)"

text \<open>\<^verbatim>\<open>obj[prop]\<close> on a value of the object graph.\<close>

fun getMember :: "host \<Rightarrow> jsval \<Rightarrow> string \<Rightarrow> jsval res" where
  "getMember h JsUndefined k = Raise (rtError h ReadNullish)"
| "getMember h JsNull k = Raise (rtError h ReadNullish)"
| "getMember h (JsObj ps) k =
     (case map_of ps k of
        Some v \<Rightarrow> Ok v
      | None \<Rightarrow> if inherited k then Unmodelled else Ok JsUndefined)"
| "getMember h _ k = Unmodelled"

text \<open>The loop of \<^verbatim>\<open>parsePath\<close>: \<^verbatim>\<open>obj = obj[parts[i]]\<close> over all parts but the last.\<close>

fun walk :: "host \<Rightarrow> jsval \<Rightarrow> string list \<Rightarrow> jsval res" where
  "walk h obj [] = Ok obj"
| "walk h obj (k # ks) =
     (case getMember h obj k of
        Ok v \<Rightarrow> walk h v ks
      | Raise e \<Rightarrow> Raise e
      | Unmodelled \<Rightarrow> Unmodelled)"

text \<open>\<^verbatim>\<open>path.split('/')\<close>: never empty.\<close>

fun splitSlash :: "string \<Rightarrow> string list" where
  "splitSlash [] = [[]]"
| "splitSlash (c # cs) =
     (if c = CHR ''/'' then [] # splitSlash cs
      else (case splitSlash cs of [] \<Rightarrow> [[c]] | w # ws \<Rightarrow> (c # w) # ws))"

text \<open>\<^verbatim>\<open>path.replace(/\/$/, "")\<close>: one trailing slash is removed.\<close>

definition stripSlash :: "string \<Rightarrow> string" where
  "stripSlash path = (if path \<noteq> [] \<and> last path = CHR ''/'' then butlast path else path)"

subsection \<open>The engine\<close>

type_synonym cb = nat         \<comment> \<open>an \<^verbatim>\<open>oncomplete\<close> function\<close>
type_synonym listener = nat   \<comment> \<open>a listener function\<close>

text \<open>
  A parsed inbound message. The fields have the types of the protocol: the kind and the
  path are strings, the id and the error code integers, the body any JSON value.
\<close>

record message =
  mtype :: string
  mid :: "int option"
  mpath :: "string option"
  mbody :: "json option"
  merror :: "int option"

text \<open>\<^verbatim>\<open>event.data\<close>: an ArrayBuffer, a text that \<^verbatim>\<open>JSON.parse\<close> rejects, or a message.\<close>

datatype evdata = ArrayBuffer "8 word list" | Malformed string | Parsed message

text \<open>The object given to \<^verbatim>\<open>JSON.stringify\<close>; None and undefined are absent keys.\<close>

record wire =
  wtype :: string
  wid :: "int option"
  wpath :: "string option"
  wbody :: jsval
  werror :: jsval

datatype frame = TextFrame wire | BinaryFrame "8 word list"

datatype logentry =
    LogOnMessage               \<comment> \<open>\<^verbatim>\<open>"WebSocket.onmessage"\<close>\<close>
  | LogGot evdata              \<comment> \<open>\<^verbatim>\<open>"Got " + event.data\<close>\<close>
  | LogSend wire               \<comment> \<open>\<^verbatim>\<open>"Send " + json\<close>\<close>
  | LogNoPending "int option"  \<comment> \<open>\<^verbatim>\<open>"ERROR: Received response " + id + " with no pending request"\<close>\<close>
  | LogException jsval         \<comment> \<open>\<^verbatim>\<open>"Exception while handling CogSocket message: " + ex\<close>\<close>

text \<open>
  \<^verbatim>\<open>this._priv\<close>. The websocket is the transport of the engine record below and
  \<^verbatim>\<open>space\<close> only indents the JSON text.
\<close>

record privstate =
  root :: jsval
  requestId :: int
  pendingRequests :: "int \<rightharpoonup> int \<times> cb"   \<comment> \<open>\<^verbatim>\<open>{requestId, oncomplete}\<close>\<close>
  listeners :: "string \<rightharpoonup> listener list"
  eventSenders :: "string \<rightharpoonup> fn"
  connection :: jsval
  remoteInfo :: jsval
  localInfo :: jsval

record engine =
  priv :: "privstate option"               \<comment> \<open>None once \<^verbatim>\<open>delete this._priv\<close> has run\<close>
  log :: bool                            \<comment> \<open>is \<^verbatim>\<open>this.log\<close> set\<close>
  sent :: "frame list"                   \<comment> \<open>the arguments of \<^verbatim>\<open>websocket.send\<close>, in order\<close>
  closeCalls :: nat                      \<comment> \<open>the calls of \<^verbatim>\<open>websocket.close\<close>\<close>
  logged :: "logentry list"              \<comment> \<open>the arguments of \<^verbatim>\<open>this.log\<close>\<close>
  completed :: "(cb \<times> jsval list) list"  \<comment> \<open>the calls of \<^verbatim>\<open>oncomplete\<close> functions\<close>
  notified :: "(listener \<times> jsval list) list"  \<comment> \<open>the calls of listeners\<close>

text \<open>
  \<^verbatim>\<open>new ConnectionObject(cogsock)\<close>: one own member, \<^verbatim>\<open>hello\<close>; the object is frozen
  (see \<open>setMember\<close>).
\<close>

definition ConnectionObject :: jsval where
  "ConnectionObject = JsObj [(''hello'', JsFun Hello)]"

text \<open>\<^verbatim>\<open>new CogSocket(websocket, root, space)\<close>; \<open>newPriv\<close> is the value of \<^verbatim>\<open>this._priv\<close>.\<close>

definition newPriv :: "jsval \<Rightarrow> privstate" where
  "newPriv r =
    \<lparr>root = r, requestId = 0, pendingRequests = Map.empty,
     listeners = Map.empty, eventSenders = Map.empty, connection = ConnectionObject,
     remoteInfo = JsUndefined, localInfo = JsUndefined\<rparr>"

definition CogSocket :: "jsval \<Rightarrow> engine" where
  "CogSocket r =
    \<lparr>priv = Some (newPriv r),
     log = False, sent = [], closeCalls = 0, logged = [], completed = [], notified = []\<rparr>"

definition close :: "engine \<Rightarrow> engine" where
  "close s =
    (case priv s of
       Some p \<Rightarrow> s\<lparr>priv := None, closeCalls := closeCalls s + 1\<rparr>
     | None \<Rightarrow> s)"

text \<open>\<^verbatim>\<open>if (this.log) this.log(...)\<close>.\<close>

definition logIf :: "engine \<Rightarrow> logentry \<Rightarrow> engine" where
  "logIf s e = (if log s then s\<lparr>logged := logged s @ [e]\<rparr> else s)"

text \<open>\<^verbatim>\<open>if (oncomplete) oncomplete();\<close>\<close>

definition complete :: "engine \<Rightarrow> cb option \<Rightarrow> engine" where
  "complete s oncomplete =
    (case oncomplete of
       None \<Rightarrow> s
     | Some oc \<Rightarrow> s\<lparr>completed := completed s @ [(oc, [])]\<rparr>)"

text \<open>
  A lookup \<^verbatim>\<open>table[key]\<close> in one of the engine's tables, which are plain objects
  (\<^verbatim>\<open>{}\<close>): an own entry, else the member inherited from \<^verbatim>\<open>Object.prototype\<close>, else
  undefined.
\<close>

datatype 'a slot = Own 'a | Inherited | Absent

definition lookup :: "(string \<rightharpoonup> 'a) \<Rightarrow> string \<Rightarrow> 'a slot" where
  "lookup t k =
    (case t k of
       Some x \<Rightarrow> Own x
     | None \<Rightarrow> if inherited k then Inherited else Absent)"

definition sendRequest ::
  "host \<Rightarrow> engine \<Rightarrow> string \<Rightarrow> string \<Rightarrow> cb option \<Rightarrow> jsval \<Rightarrow> int option res \<times> engine" where
  "sendRequest h s type path oncomplete body =
    (case priv s of
       None \<Rightarrow> (Raise (rtError h ReadNullish), s)
     | Some p \<Rightarrow>
         let (rid, p1) =
               (case oncomplete of
                  None \<Rightarrow> (None, p)
                | Some oc \<Rightarrow>
                    let r = (if requestId p + 1 > 0x7FFFFFFF then 1 else requestId p + 1)
                    in (Some r, p\<lparr>requestId := r,
                                  pendingRequests := (pendingRequests p)(r \<mapsto> (r, oc))\<rparr>));
             msg = \<lparr>wtype = type, wid = rid, wpath = Some path, wbody = body,
                    werror = JsUndefined\<rparr>;
             s1 = logIf (s\<lparr>priv := Some p1\<rparr>) (LogSend msg)
         in (Ok rid, s1\<lparr>sent := sent s1 @ [TextFrame msg]\<rparr>))"

text \<open>The result of a call made for its effect.\<close>

definition ignore :: "'a res \<times> engine \<Rightarrow> unit res \<times> engine" where
  "ignore r =
    (case fst r of
       Ok x \<Rightarrow> (Ok (), snd r)
     | Raise e \<Rightarrow> (Raise e, snd r)
     | Unmodelled \<Rightarrow> (Unmodelled, snd r))"

text \<open>The public requests. \<^verbatim>\<open>get(path, undefined, oncomplete)\<close> is accepted as well.\<close>

definition get ::
  "host \<Rightarrow> engine \<Rightarrow> string \<Rightarrow> cb option \<Rightarrow> cb option \<Rightarrow> unit res \<times> engine" where
  "get h s path oncomplete third =
    ignore (sendRequest h s ''get'' path
             (case oncomplete of None \<Rightarrow> third | Some oc \<Rightarrow> Some oc) JsUndefined)"

definition put :: "host \<Rightarrow> engine \<Rightarrow> string \<Rightarrow> jsval \<Rightarrow> cb option \<Rightarrow> unit res \<times> engine" where
  "put h s path data oncomplete = ignore (sendRequest h s ''put'' path oncomplete data)"


definition addListener ::
  "host \<Rightarrow> engine \<Rightarrow> string \<Rightarrow> listener \<Rightarrow> cb option \<Rightarrow> unit res \<times> engine" where
  "addListener h s path f oncomplete =
    (case priv s of
       None \<Rightarrow> (Raise (rtError h ReadNullish), s)
     | Some p \<Rightarrow>
         (case lookup (listeners p) path of
            Own ls \<Rightarrow>
              (Ok (), complete (s\<lparr>priv := Some (p\<lparr>listeners := (listeners p)(path \<mapsto> ls @ [f])\<rparr>)\<rparr>)
                        oncomplete)
          | Inherited \<Rightarrow> (Raise (rtError h NotAFunction), s)
              \<comment> \<open>\<^verbatim>\<open>listeners.push\<close> is undefined on the inherited member\<close>
          | Absent \<Rightarrow>
              ignore (sendRequest h
                (s\<lparr>priv := Some (p\<lparr>listeners := (listeners p)(path \<mapsto> [f])\<rparr>)\<rparr>)
                ''listen'' path oncomplete JsUndefined)))"

definition removeListener ::
  "host \<Rightarrow> engine \<Rightarrow> string \<Rightarrow> listener option \<Rightarrow> cb option \<Rightarrow> unit res \<times> engine" where
  "removeListener h s path f oncomplete =
    (case priv s of
       None \<Rightarrow> (Raise (rtError h ReadNullish), s)
     | Some p \<Rightarrow>
         (case lookup (listeners p) path of
            Own ls \<Rightarrow>
              let ls' = (case f of Some l \<Rightarrow> remove1 l ls | None \<Rightarrow> ls)
              in if f = None \<or> ls' = [] then
                   ignore (sendRequest h
                     (s\<lparr>priv := Some (p\<lparr>listeners := (listeners p)(path := None)\<rparr>)\<rparr>)
                     ''unlisten'' path oncomplete JsUndefined)
                 else
                   (Ok (), complete (s\<lparr>priv := Some (p\<lparr>listeners := (listeners p)(path \<mapsto> ls')\<rparr>)\<rparr>)
                             oncomplete)
          | Inherited \<Rightarrow>
              \<comment> \<open>no index of the inherited member holds the listener; the delete removes nothing\<close>
              if f = None \<or> map_of objectPrototype path = Some (Some 0) then
                ignore (sendRequest h s ''unlisten'' path oncomplete JsUndefined)
              else (Ok (), complete s oncomplete)
          | Absent \<Rightarrow> (Ok (), complete s oncomplete)))"

subsection \<open>Responses\<close>

definition sendResponse :: "host \<Rightarrow> engine \<Rightarrow> int option \<Rightarrow> jsval \<Rightarrow> unit res \<times> engine" where
  "sendResponse h s rid body =
    (if truthyId rid then
       (case priv s of
          None \<Rightarrow> (Raise (rtError h ReadNullish), s)
        | Some p \<Rightarrow>
            let resp =
                  (case body of
                     JsError number text \<Rightarrow>
                       \<lparr>wtype = ''resp'', wid = rid, wpath = None, wbody = JsStr text,
                        werror = (if truthy number then number else JsNum (- 1))\<rparr>
                   | _ \<Rightarrow>
                       \<lparr>wtype = ''resp'', wid = rid, wpath = None, wbody = body,
                        werror = JsUndefined\<rparr>);
                s1 = logIf s (LogSend resp)
            in (Ok (), s1\<lparr>sent := sent s1 @ [TextFrame resp]\<rparr>))
     else (Ok (), s))"

subsection \<open>Paths\<close>

text \<open>
  A reference to an object is the graph it lives in (\<open>pbase\<close>: the connection object or the
  root), the members that lead to it (\<open>ploc\<close>) and its value.
\<close>

datatype base = ConnBase | RootBase

record parsed =
  pbase :: base
  ploc :: "string list"
  pobj :: jsval
  pprop :: string

definition parsePath :: "host \<Rightarrow> engine \<Rightarrow> string option \<Rightarrow> parsed res" where
  "parsePath h s path =
    (case priv s of
       None \<Rightarrow> Raise (rtError h ReadNullish)
     | Some p \<Rightarrow>
         let conn = (case path of None \<Rightarrow> False | Some t \<Rightarrow> t \<noteq> [] \<and> take 2 t = ''@/'');
             r = (if conn then connection p else root p);
             path1 = (if conn then map_option (drop 2) path else path)
         in if \<not> truthy r then Raise (JsError JsUndefined ''No root object is provided'')
            else
              (case path1 of
                 None \<Rightarrow> Raise (rtError h ReadNullish)
               | Some t \<Rightarrow>
                   let parts = splitSlash (stripSlash t)
                   in (case walk h r (butlast parts) of
                         Ok obj \<Rightarrow>
                           Ok \<lparr>pbase = (if conn then ConnBase else RootBase),
                               ploc = butlast parts, pobj = obj, pprop = last parts\<rparr>
                       | Raise e \<Rightarrow> Raise e
                       | Unmodelled \<Rightarrow> Unmodelled)))"

text \<open>The graph with the object at a location replaced.\<close>

fun updateAt :: "jsval \<Rightarrow> string list \<Rightarrow> jsval \<Rightarrow> jsval" where
  "updateAt g [] v = v"
| "updateAt (JsObj ps) (k # ks) v =
     (case map_of ps k of
        Some c \<Rightarrow> JsObj (AList.update k (updateAt c ks v) ps)
      | None \<Rightarrow> JsObj ps)"
| "updateAt g (k # ks) v = g"

text \<open>
  \<^verbatim>\<open>parsed.obj[parsed.prop] = value\<close>. The module is not in strict mode: an assignment
  to a member of the frozen connection object is ignored. An assignment to \<^verbatim>\<open>__proto__\<close>
  that is not an own member runs the inherited setter. The objects of the root graph are
  extensible and their members writable.
\<close>

definition setMember :: "host \<Rightarrow> engine \<Rightarrow> parsed \<Rightarrow> jsval \<Rightarrow> unit res \<times> engine" where
  "setMember h s pa v =
    (case pobj pa of
       JsUndefined \<Rightarrow> (Raise (rtError h WriteNullish), s)
     | JsNull \<Rightarrow> (Raise (rtError h WriteNullish), s)
     | JsObj ps \<Rightarrow>
         if pprop pa = ''__proto__'' \<and> map_of ps (pprop pa) = None then (Unmodelled, s)
         else
           (case pbase pa of
              ConnBase \<Rightarrow> if ploc pa = [] then (Ok (), s) else (Unmodelled, s)
            | RootBase \<Rightarrow>
                (case priv s of
                   None \<Rightarrow> (Unmodelled, s)
                 | Some p \<Rightarrow>
                     (Ok (), s\<lparr>priv := Some (p\<lparr>root :=
                        updateAt (root p) (ploc pa) (JsObj (AList.update (pprop pa) v ps))\<rparr>)\<rparr>)))
     | _ \<Rightarrow> (Unmodelled, s))"

subsection \<open>Calls\<close>

text \<open>\<^verbatim>\<open>ConnectionObject.hello\<close>; \<^verbatim>\<open>os\<close> is not declared in the module.\<close>

definition hello :: "host \<Rightarrow> engine \<Rightarrow> jsval \<Rightarrow> jsval res \<times> engine" where
  "hello h s info =
    (case priv s of
       None \<Rightarrow> (Raise (rtError h WriteNullish), s)
     | Some p \<Rightarrow>
         if \<not> truthy (localInfo p) then
           (case platform h of
              None \<Rightarrow>
                (Raise (rtError h NotDefined),
                 s\<lparr>priv := Some (p\<lparr>remoteInfo := info, localInfo := JsObj []\<rparr>)\<rparr>)
            | Some pf \<Rightarrow>
                let li = JsObj [(''model'', JsStr pf), (''name'', JsStr ''In-Sight?'')]
                in (Ok li, s\<lparr>priv := Some (p\<lparr>remoteInfo := info, localInfo := li\<rparr>)\<rparr>))
         else (Ok (localInfo p), s\<lparr>priv := Some (p\<lparr>remoteInfo := info\<rparr>)\<rparr>))"

text \<open>The closure \<^verbatim>\<open>sender\<close> of a listen request, called with some arguments.\<close>

definition eventSender :: "engine \<Rightarrow> string option \<Rightarrow> jsval list \<Rightarrow> engine" where
  "eventSender s path args =
    (let newEvent = \<lparr>wtype = ''event'', wid = None, wpath = path,
                     wbody = (case args of [] \<Rightarrow> JsUndefined | [a] \<Rightarrow> a | _ \<Rightarrow> JsArr args),
                     werror = JsUndefined\<rparr>;
         s1 = logIf s (LogSend newEvent)
     in s1\<lparr>sent := sent s1 @ [TextFrame newEvent]\<rparr>)"

text \<open>A function value called with \<^verbatim>\<open>this\<close> and arguments.\<close>

fun invoke :: "host \<Rightarrow> engine \<Rightarrow> fn \<Rightarrow> jsval \<Rightarrow> jsval list \<Rightarrow> jsval res \<times> engine" where
  "invoke h s (UserFn n) this args =
     (case priv s of
        None \<Rightarrow> (Unmodelled, s)
      | Some p \<Rightarrow>
          (fst (callFn h n this args (root p)),
           s\<lparr>priv := Some (p\<lparr>root := snd (callFn h n this args (root p))\<rparr>)\<rparr>))"
| "invoke h s Hello this args = hello h s (case args of [] \<Rightarrow> JsUndefined | a # _ \<Rightarrow> a)"
| "invoke h s (EventSender path) this args = (Ok JsUndefined, eventSender s path args)"
| "invoke h s (Builtin n) this args = (Unmodelled, s)"

text \<open>
  \<^verbatim>\<open>method.apply(obj, args)\<close> and \<^verbatim>\<open>method.call(obj, arg)\<close>: \<open>via\<close> is the member read
  from \<^verbatim>\<open>method\<close>, which only functions have, unless an object has its own.
\<close>

definition applyMethod ::
  "host \<Rightarrow> engine \<Rightarrow> jsval \<Rightarrow> string \<Rightarrow> jsval \<Rightarrow> jsval list \<Rightarrow> jsval res \<times> engine" where
  "applyMethod h s method via this args =
    (case method of
       JsUndefined \<Rightarrow> (Raise (rtError h ReadNullish), s)
     | JsNull \<Rightarrow> (Raise (rtError h ReadNullish), s)
     | JsFun f \<Rightarrow> invoke h s f this args
     | JsObj ps \<Rightarrow>
         if map_of ps via = None then (Raise (rtError h NotAFunction), s) else (Unmodelled, s)
     | _ \<Rightarrow> (Raise (rtError h NotAFunction), s))"

text \<open>\<^verbatim>\<open>obj.name(args)\<close>.\<close>

definition callMember ::
  "host \<Rightarrow> engine \<Rightarrow> jsval \<Rightarrow> string \<Rightarrow> jsval list \<Rightarrow> jsval res \<times> engine" where
  "callMember h s obj name args =
    (case getMember h obj name of
       Ok (JsFun f) \<Rightarrow> invoke h s f obj args
     | Ok _ \<Rightarrow> (Raise (rtError h NotAFunction), s)
     | Raise e \<Rightarrow> (Raise e, s)
     | Unmodelled \<Rightarrow> (Unmodelled, s))"

subsection \<open>Inbound messages\<close>

text \<open>The key a path makes in a table: an absent path is the key \<^verbatim>\<open>"undefined"\<close>.\<close>

definition keyOf :: "string option \<Rightarrow> string" where
  "keyOf path = (case path of None \<Rightarrow> ''undefined'' | Some t \<Rightarrow> t)"

definition handleGet :: "host \<Rightarrow> engine \<Rightarrow> message \<Rightarrow> int option \<Rightarrow> unit res \<times> engine" where
  "handleGet h s m rid =
    (case parsePath h s (mpath m) of
       Ok pa \<Rightarrow>
         (case getMember h (pobj pa) (pprop pa) of
            Ok propVal \<Rightarrow> sendResponse h s rid propVal
          | Raise e \<Rightarrow> (Raise e, s)
          | Unmodelled \<Rightarrow> (Unmodelled, s))
     | Raise e \<Rightarrow> (Raise e, s)
     | Unmodelled \<Rightarrow> (Unmodelled, s))"

definition handlePut :: "host \<Rightarrow> engine \<Rightarrow> message \<Rightarrow> int option \<Rightarrow> unit res \<times> engine" where
  "handlePut h s m rid =
    (case parsePath h s (mpath m) of
       Ok pa \<Rightarrow>
         (case setMember h s pa (field (mbody m)) of
            (Ok u, s1) \<Rightarrow> sendResponse h s1 rid JsUndefined
          | (Raise e, s1) \<Rightarrow> (Raise e, s1)
          | (Unmodelled, s1) \<Rightarrow> (Unmodelled, s1))
     | Raise e \<Rightarrow> (Raise e, s)
     | Unmodelled \<Rightarrow> (Unmodelled, s))"

definition handlePost :: "host \<Rightarrow> engine \<Rightarrow> message \<Rightarrow> int option \<Rightarrow> unit res \<times> engine" where
  "handlePost h s m rid =
    (case parsePath h s (mpath m) of
       Ok pa \<Rightarrow>
         (case getMember h (pobj pa) (pprop pa) of
            Ok method \<Rightarrow>
              (case (case mbody m of
                       Some (JArr xs) \<Rightarrow>
                         applyMethod h s method ''apply'' (pobj pa) (map ofJson xs)
                     | _ \<Rightarrow>
                         applyMethod h s method ''call'' (pobj pa) [field (mbody m)]) of
                 (Ok returnVal, s1) \<Rightarrow> sendResponse h s1 rid returnVal
               | (Raise e, s1) \<Rightarrow> (Raise e, s1)
               | (Unmodelled, s1) \<Rightarrow> (Unmodelled, s1))
          | Raise e \<Rightarrow> (Raise e, s)
          | Unmodelled \<Rightarrow> (Unmodelled, s))
     | Raise e \<Rightarrow> (Raise e, s)
     | Unmodelled \<Rightarrow> (Unmodelled, s))"

definition handleResp :: "host \<Rightarrow> engine \<Rightarrow> message \<Rightarrow> unit res \<times> engine" where
  "handleResp h s m =
    (case priv s of
       None \<Rightarrow> (Raise (rtError h ReadNullish), s)
     | Some p \<Rightarrow>
         (case (case mid m of None \<Rightarrow> None | Some i \<Rightarrow> pendingRequests p i) of
            Some pending \<Rightarrow>
              let arg =
                    (case merror m of
                       None \<Rightarrow> field (mbody m)
                     | Some e \<Rightarrow>
                         if e = 0 then field (mbody m)
                         else JsError (JsNum e)
                                (if truthy (field (mbody m)) then toStr h (field (mbody m))
                                 else toStr h (JsNum e)));
                  s1 = s\<lparr>completed := completed s @ [(snd pending, [arg])]\<rparr>
              in (Ok (), s1\<lparr>priv := Some (p\<lparr>pendingRequests :=
                                  (\<lambda>i. if Some i = mid m then None else pendingRequests p i)\<rparr>)\<rparr>)
          | None \<Rightarrow> (Ok (), logIf s (LogNoPending (mid m)))))"

definition handleEvent :: "host \<Rightarrow> engine \<Rightarrow> message \<Rightarrow> int option \<Rightarrow> unit res \<times> engine" where
  "handleEvent h s m rid =
    (case priv s of
       None \<Rightarrow> (Raise (rtError h ReadNullish), s)
     | Some p \<Rightarrow>
         let eventArgs =
               (case mbody m of
                  None \<Rightarrow> []
                | Some (JArr xs) \<Rightarrow> map ofJson xs
                | Some b \<Rightarrow> [ofJson b])
         in (case lookup (listeners p) (keyOf (mpath m)) of
               Own ls \<Rightarrow>
                 (let s1 = s\<lparr>notified := notified s @ map (\<lambda>l. (l, eventArgs)) ls\<rparr>
                  in if truthyId rid then sendResponse h s1 rid JsUndefined else (Ok (), s1))
             | Inherited \<Rightarrow>
                 \<comment> \<open>the indices below its \<^verbatim>\<open>length\<close> hold undefined\<close>
                 (case map_of objectPrototype (keyOf (mpath m)) of
                    Some (Some n) \<Rightarrow>
                      if 0 < n then (Raise (rtError h ReadNullish), s)
                      else if truthyId rid then sendResponse h s rid JsUndefined else (Ok (), s)
                  | _ \<Rightarrow> if truthyId rid then sendResponse h s rid JsUndefined else (Ok (), s))
             | Absent \<Rightarrow>
                 if truthyId rid then sendResponse h s rid JsUndefined else (Ok (), s)))"

definition handleListen :: "host \<Rightarrow> engine \<Rightarrow> message \<Rightarrow> int option \<Rightarrow> unit res \<times> engine" where
  "handleListen h s m rid =
    (case priv s of
       None \<Rightarrow> (Raise (rtError h ReadNullish), s)
     | Some p \<Rightarrow>
         (case lookup (eventSenders p) (keyOf (mpath m)) of
            Absent \<Rightarrow>
              (case parsePath h s (mpath m) of
                 Ok pa \<Rightarrow>
                   (case callMember h
                           (s\<lparr>priv := Some (p\<lparr>eventSenders :=
                                 (eventSenders p)(keyOf (mpath m) \<mapsto> EventSender (mpath m))\<rparr>)\<rparr>)
                           (pobj pa) ''addListener''
                           [JsStr (pprop pa), JsFun (EventSender (mpath m))] of
                      (Ok r, s1) \<Rightarrow>
                        if truthyId rid then sendResponse h s1 rid JsUndefined else (Ok (), s1)
                    | (Raise e, s1) \<Rightarrow> (Raise e, s1)
                    | (Unmodelled, s1) \<Rightarrow> (Unmodelled, s1))
               | Raise e \<Rightarrow> (Raise e, s)
               | Unmodelled \<Rightarrow> (Unmodelled, s))
          | _ \<Rightarrow> if truthyId rid then sendResponse h s rid JsUndefined else (Ok (), s)))"

text \<open>\<^verbatim>\<open>delete priv.eventSenders[path]\<close>.\<close>

definition deleteSender :: "engine \<Rightarrow> string \<Rightarrow> engine" where
  "deleteSender s k =
    (case priv s of
       None \<Rightarrow> s
     | Some p \<Rightarrow> s\<lparr>priv := Some (p\<lparr>eventSenders := (eventSenders p)(k := None)\<rparr>)\<rparr>)"

definition handleUnlisten :: "host \<Rightarrow> engine \<Rightarrow> message \<Rightarrow> int option \<Rightarrow> unit res \<times> engine" where
  "handleUnlisten h s m rid =
    (case priv s of
       None \<Rightarrow> (Raise (rtError h ReadNullish), s)
     | Some p \<Rightarrow>
         (case lookup (eventSenders p) (keyOf (mpath m)) of
            Absent \<Rightarrow> if truthyId rid then sendResponse h s rid JsUndefined else (Ok (), s)
          | found \<Rightarrow>
              (case parsePath h s (mpath m) of
                 Ok pa \<Rightarrow>
                   (case callMember h s (pobj pa) ''removeListener''
                           [JsStr (pprop pa),
                            JsFun (case found of Own f \<Rightarrow> f | _ \<Rightarrow> Builtin (keyOf (mpath m)))] of
                      (Ok r, s1) \<Rightarrow>
                        if truthyId rid
                        then sendResponse h (deleteSender s1 (keyOf (mpath m))) rid JsUndefined
                        else (Ok (), deleteSender s1 (keyOf (mpath m)))
                    | (Raise e, s1) \<Rightarrow> (Raise e, s1)
                    | (Unmodelled, s1) \<Rightarrow> (Unmodelled, s1))
               | Raise e \<Rightarrow> (Raise e, s)
               | Unmodelled \<Rightarrow> (Unmodelled, s))))"

text \<open>The \<^verbatim>\<open>switch\<close> on \<^verbatim>\<open>message.$type\<close>.\<close>

definition dispatch :: "host \<Rightarrow> engine \<Rightarrow> message \<Rightarrow> int option \<Rightarrow> unit res \<times> engine" where
  "dispatch h s m rid =
    (if mtype m = ''get'' then handleGet h s m rid
     else if mtype m = ''put'' then handlePut h s m rid
     else if mtype m = ''post'' then handlePost h s m rid
     else if mtype m = ''resp'' then handleResp h s m
     else if mtype m = ''event'' then handleEvent h s m rid
     else if mtype m = ''listen'' then handleListen h s m rid
     else if mtype m = ''unlisten'' then handleUnlisten h s m rid
     else (Raise (JsError JsUndefined
             (''Request type '' @ [CHR 0x27] @ mtype m @ [CHR 0x27] @ '' is not supported.'')), s))"

text \<open>
  The \<^verbatim>\<open>try\<close> block of \<^verbatim>\<open>socketMessage\<close>: what it does, and the value of \<^verbatim>\<open>requestId\<close>
  when it ends.
\<close>

definition tryBlock :: "host \<Rightarrow> engine \<Rightarrow> evdata \<Rightarrow> (unit res \<times> engine) \<times> int option" where
  "tryBlock h s ev =
    (case ev of
       ArrayBuffer bs \<Rightarrow>
         (case priv s of
            None \<Rightarrow> ((Raise (rtError h ReadNullish), s), Some 0)
          | Some p \<Rightarrow> ((Ok (), s\<lparr>sent := sent s @ [BinaryFrame [0, 0, 0xE0, 0x80]]\<rparr>), Some 0))
     | Malformed t \<Rightarrow> ((Raise (rtError h SyntaxErr), logIf s (LogGot ev)), Some 0)
     | Parsed m \<Rightarrow>
         (let rid = (if mtype m \<noteq> ''resp'' then mid m else Some 0)
          in (dispatch h (logIf s (LogGot ev)) m rid, rid)))"

text \<open>
  The \<^verbatim>\<open>catch\<close> block of \<^verbatim>\<open>socketMessage\<close>. It reads \<^verbatim>\<open>ex.stack\<close>, which raises when
  the value caught is undefined or null.
\<close>

definition catchBlock :: "host \<Rightarrow> engine \<Rightarrow> int option \<Rightarrow> jsval \<Rightarrow> unit res \<times> engine" where
  "catchBlock h s rid ex =
    (if ex = JsUndefined \<or> ex = JsNull
     then (Raise (rtError h ReadNullish), logIf s (LogException ex))
     else if truthyId rid then sendResponse h (logIf s (LogException ex)) rid ex
     else (Ok (), logIf s (LogException ex)))"

definition socketMessage :: "host \<Rightarrow> engine \<Rightarrow> evdata \<Rightarrow> unit res \<times> engine" where
  "socketMessage h s ev =
    (case fst (fst (tryBlock h (logIf s LogOnMessage) ev)) of
       Raise ex \<Rightarrow>
         catchBlock h (snd (fst (tryBlock h (logIf s LogOnMessage) ev)))
           (snd (tryBlock h (logIf s LogOnMessage) ev)) ex
     | _ \<Rightarrow> fst (tryBlock h (logIf s LogOnMessage) ev))"

text \<open>\<^verbatim>\<open>this._priv.connection\<close>, while the engine has its private state.\<close>

definition connectionOf :: "engine \<Rightarrow> jsval option" where
  "connectionOf s = map_option connection (priv s)"

subsection \<open>Sequences of calls\<close>

text \<open>
  Successive calls \<^verbatim>\<open>addListener(p, f, oc)\<close>, one for each \<open>oc\<close> of the list, and the same
  for \<^verbatim>\<open>removeListener\<close>; a call that raises ends the sequence. \<open>kindOf\<close> is the kind
  and the path of a frame.
\<close>

fun addListeners :: "host \<Rightarrow> engine \<Rightarrow> string \<Rightarrow> listener \<Rightarrow> cb option list \<Rightarrow> unit res \<times> engine" where
  "addListeners h s p f [] = (Ok (), s)"
| "addListeners h s p f (oc # ocs) =
     (if fst (addListener h s p f oc) = Ok ()
      then addListeners h (snd (addListener h s p f oc)) p f ocs
      else addListener h s p f oc)"

fun removeListeners ::
  "host \<Rightarrow> engine \<Rightarrow> string \<Rightarrow> listener option \<Rightarrow> cb option list \<Rightarrow> unit res \<times> engine" where
  "removeListeners h s p f [] = (Ok (), s)"
| "removeListeners h s p f (oc # ocs) =
     (if fst (removeListener h s p f oc) = Ok ()
      then removeListeners h (snd (removeListener h s p f oc)) p f ocs
      else removeListener h s p f oc)"

fun kindOf :: "frame \<Rightarrow> string \<times> string option" where
  "kindOf (TextFrame w) = (wtype w, wpath w)"
| "kindOf (BinaryFrame bs) = (''binary'', None)"

text \<open>
  The ids returned by successive calls of \<^verbatim>\<open>sendRequest\<close>, and the relation between an
  id and the ids issued after it: positive, at most \<^verbatim>\<open>0x7FFFFFFF\<close>, one more than the id
  before, and 1 after \<^verbatim>\<open>0x7FFFFFFF\<close>.
\<close>

fun issued :: "host \<Rightarrow> engine \<Rightarrow> (string \<times> string \<times> cb option \<times> jsval) list \<Rightarrow> int list" where
  "issued h s [] = []"
| "issued h s ((t, path, oncomplete, body) # rs) =
     (case fst (sendRequest h s t path oncomplete body) of
        Ok (Some i) \<Rightarrow> i # issued h (snd (sendRequest h s t path oncomplete body)) rs
      | _ \<Rightarrow> issued h (snd (sendRequest h s t path oncomplete body)) rs)"

fun successive :: "int \<Rightarrow> int list \<Rightarrow> bool" where
  "successive a [] = True"
| "successive a (b # bs) =
     (0 < b \<and> b \<le> 0x7FFFFFFF \<and> (if a = 0x7FFFFFFF then b = 1 else b = a + 1 \<and> a < b) \<and>
      successive b bs)"

subsection \<open>Fixtures for concrete runs\<close>

text \<open>
  A host whose graph functions are \<^verbatim>\<open>fail\<close>, which throws the string \<^verbatim>\<open>"bad"\<close>,
  \<^verbatim>\<open>error\<close>, which returns \<^verbatim>\<open>new Error("no")\<close>, and any other name, which returns the
  array of its arguments.
\<close>

definition demoHost :: host where
  "demoHost =
    \<lparr>callFn = (\<lambda>n this args g.
        (if n = ''fail'' then Raise (JsStr ''bad'')
         else if n = ''error'' then Ok (JsError JsUndefined ''no'')
         else Ok (JsArr args), g)),
     toStr = (\<lambda>v. ''text''), rtText = (\<lambda>e. ''TypeError''), platform = Some ''linux''\<rparr>"

text \<open>
  A root graph: \<^verbatim>\<open>{state: "Idle", mode: false, a: {b: {op, fail, error, x: 1}}}\<close>, where
  \<^verbatim>\<open>op\<close>, \<^verbatim>\<open>fail\<close> and \<^verbatim>\<open>error\<close> are the functions of those names.
\<close>

definition demoRoot :: jsval where
  "demoRoot =
    JsObj [(''state'', JsStr ''Idle''), (''mode'', JsBool False),
           (''a'', JsObj [(''b'', JsObj [(''op'', JsFun (UserFn ''op'')),
                                         (''fail'', JsFun (UserFn ''fail'')),
                                         (''error'', JsFun (UserFn ''error'')),
                                         (''x'', JsNum 1)])])]"

section \<open>Closing\<close>

text \<open>
  C10. \<^verbatim>\<open>close\<close> is idempotent: the first call on an engine closes the transport (one call
  of \<^verbatim>\<open>websocket.close\<close>) and discards the private state; a call on an engine that is
  already closed changes nothing. \<open>close\<close> is a total function: it never raises.
\<close>

theorem close_idempotent:
  "close (close s) = close s \<and>
   priv (close s) = None \<and>
   closeCalls (close s) = closeCalls s + (if priv s = None then 0 else 1) \<and>
   (priv s = None \<longrightarrow> close s = s)"
  by (cases "priv s") (simp_all add: close_def)

theorem close_idempotent_witness:
  "priv (close (CogSocket JsNull)) = None \<and>
   close (close (CogSocket JsNull)) = close (CogSocket JsNull) \<and>
   closeCalls (close (close (CogSocket JsNull))) = 1"
  using close_idempotent [of "close (CogSocket JsNull)"] close_idempotent [of "CogSocket JsNull"]
  by (simp add: CogSocket_def newPriv_def)

section \<open>Binary frames\<close>



section \<open>Responses without a pending request\<close>

text \<open>
  C6. In every state of the engine, an inbound \<^verbatim>\<open>resp\<close> whose id is the key of no pending
  request does not raise and sends nothing; the private state, and with it the whole table
  of pending requests, is as it was; no callback runs. All that happens on an engine that
  has not been closed is logging, when the log hook is set.
\<close>

theorem unmatched_resp_dropped:
  assumes "mtype m = ''resp''"
    and "\<forall>p i. priv s = Some p \<longrightarrow> mid m = Some i \<longrightarrow> pendingRequests p i = None"
  shows "fst (socketMessage h s (Parsed m)) = Ok ()
         \<and> priv (snd (socketMessage h s (Parsed m))) = priv s
         \<and> sent (snd (socketMessage h s (Parsed m))) = sent s
         \<and> completed (snd (socketMessage h s (Parsed m))) = completed s
         \<and> (priv s \<noteq> None \<longrightarrow>
              socketMessage h s (Parsed m) =
                (Ok (), logIf (logIf (logIf s LogOnMessage) (LogGot (Parsed m)))
                          (LogNoPending (mid m))))"
proof (cases "priv s")
  case None
  then show ?thesis
    using assms(1)
    by (simp add: socketMessage_def tryBlock_def dispatch_def handleResp_def catchBlock_def
        rtError_def logIf_def)
next
  case (Some p)
  with assms have "socketMessage h s (Parsed m) =
      (Ok (), logIf (logIf (logIf s LogOnMessage) (LogGot (Parsed m))) (LogNoPending (mid m)))"
    by (cases "mid m")
       (simp_all add: socketMessage_def tryBlock_def dispatch_def handleResp_def logIf_def)
  then show ?thesis by (simp add: logIf_def)
qed

theorem unmatched_resp_dropped_witness:
  "fst (sendRequest demoHost (CogSocket JsNull) ''get'' ''state'' (Some 4) JsUndefined) = Ok (Some 1) \<and>
   (let s = snd (sendRequest demoHost (CogSocket JsNull) ''get'' ''state'' (Some 4) JsUndefined);
        m = \<lparr>mtype = ''resp'', mid = Some 9, mpath = None, mbody = Some (JStr ''Idle''),
             merror = None\<rparr>
    in fst (socketMessage demoHost s (Parsed m)) = Ok () \<and>
       priv (snd (socketMessage demoHost s (Parsed m))) = priv s \<and>
       sent (snd (socketMessage demoHost s (Parsed m))) = sent s)"
  using unmatched_resp_dropped
    [where s = "snd (sendRequest demoHost (CogSocket JsNull) ''get'' ''state'' (Some 4) JsUndefined)"
       and m = "\<lparr>mtype = ''resp'', mid = Some 9, mpath = None, mbody = Some (JStr ''Idle''),
                 merror = None\<rparr>" and h = demoHost]
  by (simp add: sendRequest_def CogSocket_def newPriv_def logIf_def Let_def)

section \<open>Correlation ids\<close>

lemma sendRequest_open:
  assumes "priv s = Some p"
  shows "\<exists>p'. priv (snd (sendRequest h s t path oc b)) = Some p' \<and>
     (case oc of
        None \<Rightarrow> fst (sendRequest h s t path oc b) = Ok None \<and> requestId p' = requestId p
      | Some c \<Rightarrow>
          fst (sendRequest h s t path oc b) = Ok (Some (requestId p')) \<and>
          requestId p' = (if requestId p + 1 > 0x7FFFFFFF then 1 else requestId p + 1))"
  using assms by (cases oc) (simp_all add: sendRequest_def logIf_def Let_def)

lemma issued_successive:
  "priv s = Some p \<Longrightarrow> 0 \<le> requestId p \<Longrightarrow> requestId p \<le> 0x7FFFFFFF \<Longrightarrow>
   successive (requestId p) (issued h s rs)"
proof (induction rs arbitrary: s p)
  case Nil
  then show ?case by simp
next
  case (Cons r rs)
  obtain t path oc b where r: "r = (t, path, oc, b)" by (cases r) auto
  from sendRequest_open [OF Cons.prems(1), of h t path oc b]
  obtain p' where p': "priv (snd (sendRequest h s t path oc b)) = Some p'"
    and c: "(case oc of
        None \<Rightarrow> fst (sendRequest h s t path oc b) = Ok None \<and> requestId p' = requestId p
      | Some c \<Rightarrow>
          fst (sendRequest h s t path oc b) = Ok (Some (requestId p')) \<and>
          requestId p' = (if requestId p + 1 > 0x7FFFFFFF then 1 else requestId p + 1))"
    by blast
  show ?case
  proof (cases oc)
    case None
    with c have "fst (sendRequest h s t path oc b) = Ok None" and e: "requestId p' = requestId p"
      by simp_all
    moreover have "successive (requestId p') (issued h (snd (sendRequest h s t path oc b)) rs)"
      using Cons.IH [OF p'] Cons.prems e by simp
    ultimately show ?thesis by (simp add: r)
  next
    case (Some cb)
    with c have f: "fst (sendRequest h s t path oc b) = Ok (Some (requestId p'))"
      and e: "requestId p' = (if requestId p + 1 > 0x7FFFFFFF then 1 else requestId p + 1)"
      by simp_all
    from e Cons.prems have rng: "0 < requestId p'" "requestId p' \<le> 0x7FFFFFFF"
      by (auto split: if_splits)
    have "successive (requestId p') (issued h (snd (sendRequest h s t path oc b)) rs)"
      using Cons.IH [OF p'] rng by simp
    with f e rng Cons.prems show ?thesis by (auto simp: r split: if_splits)
  qed
qed

text \<open>
  C2. On an engine whose counter is in the range it has after construction and keeps
  (0 to \<^verbatim>\<open>0x7FFFFFFF\<close>), a request that expects a response gets the id after the counter:
  one more, or 1 when the counter is \<^verbatim>\<open>0x7FFFFFFF\<close>. So the ids issued by any sequence of
  requests, on such an engine and in particular on a new one, are never 0, at most
  \<^verbatim>\<open>0x7FFFFFFF\<close>, and each is greater by one than the id issued before it, except that 1
  follows \<^verbatim>\<open>0x7FFFFFFF\<close>. Requests without a callback get no id and leave the counter
  alone.
\<close>

theorem correlation_ids:
  assumes "priv s = Some p" and "0 \<le> requestId p" and "requestId p \<le> 0x7FFFFFFF"
  shows "fst (sendRequest h s t path (Some oc) b) =
           Ok (Some (if requestId p = 0x7FFFFFFF then 1 else requestId p + 1))
         \<and> successive (requestId p) (issued h s rs)
         \<and> successive 0 (issued h (CogSocket r) rs)"
proof -
  from sendRequest_open [OF assms(1), of h t path "Some oc" b] assms(2,3)
  have "fst (sendRequest h s t path (Some oc) b) =
           Ok (Some (if requestId p = 0x7FFFFFFF then 1 else requestId p + 1))"
    by (auto split: if_splits)
  moreover have "successive 0 (issued h (CogSocket r) rs)"
    using issued_successive [of "CogSocket r" "newPriv r" h rs]
    by (simp add: CogSocket_def newPriv_def)
  ultimately show ?thesis using issued_successive [OF assms] by simp
qed

theorem correlation_ids_witness:
  "issued demoHost (CogSocket JsNull)
     [(''get'', ''a'', Some 1, JsUndefined), (''put'', ''b'', None, JsNum 5),
      (''get'', ''c'', Some 2, JsUndefined)] = [1, 2] \<and>
   (let s = (CogSocket JsNull)\<lparr>priv := Some ((newPriv JsNull)\<lparr>requestId := 0x7FFFFFFE\<rparr>)\<rparr>;
        rs = [(''get'', ''a'', Some 1, JsUndefined), (''get'', ''b'', Some 2, JsUndefined),
              (''get'', ''c'', Some 3, JsUndefined)]
    in issued demoHost s rs = [0x7FFFFFFF, 1, 2] \<and>
       successive 0x7FFFFFFE (issued demoHost s rs))"
  using correlation_ids
    [where s = "(CogSocket JsNull)\<lparr>priv := Some ((newPriv JsNull)\<lparr>requestId := 0x7FFFFFFE\<rparr>)\<rparr>"
       and h = demoHost and t = "''get''" and path = "''a''" and oc = 1 and b = JsUndefined
       and rs = "[(''get'', ''a'', Some 1, JsUndefined), (''get'', ''b'', Some 2, JsUndefined),
                  (''get'', ''c'', Some 3, JsUndefined)]"]
  by (simp add: sendRequest_def CogSocket_def newPriv_def logIf_def Let_def)

section \<open>Listeners\<close>

lemma sendRequest_effect:
  assumes "priv s = Some p"
  shows "\<exists>p'. priv (snd (sendRequest h s t path oc b)) = Some p' \<and>
     listeners p' = listeners p \<and>
     (\<exists>i. fst (sendRequest h s t path oc b) = Ok i) \<and>
     map kindOf (sent (snd (sendRequest h s t path oc b))) = map kindOf (sent s) @ [(t, Some path)]"
  using assms by (cases oc) (simp_all add: sendRequest_def logIf_def Let_def)

lemma addListener_first:
  assumes "priv s = Some pr" "listeners pr p = None" "\<not> inherited p"
  shows "\<exists>pr'. fst (addListener h s p f oc) = Ok () \<and>
     priv (snd (addListener h s p f oc)) = Some pr' \<and>
     listeners pr' = (listeners pr)(p \<mapsto> [f]) \<and>
     map kindOf (sent (snd (addListener h s p f oc))) = map kindOf (sent s) @ [(''listen'', Some p)]"
proof -
  let ?s1 = "s\<lparr>priv := Some (pr\<lparr>listeners := (listeners pr)(p \<mapsto> [f])\<rparr>)\<rparr>"
  have a: "addListener h s p f oc = ignore (sendRequest h ?s1 ''listen'' p oc JsUndefined)"
    using assms by (simp add: addListener_def lookup_def)
  have "priv ?s1 = Some (pr\<lparr>listeners := (listeners pr)(p \<mapsto> [f])\<rparr>)" by simp
  from sendRequest_effect [OF this, of h "''listen''" p oc JsUndefined]
  show ?thesis unfolding a by (auto simp: ignore_def)
qed

lemma addListener_more:
  assumes "priv s = Some pr" "listeners pr p = Some ls"
  shows "\<exists>pr'. fst (addListener h s p f oc) = Ok () \<and>
     priv (snd (addListener h s p f oc)) = Some pr' \<and>
     listeners pr' = (listeners pr)(p \<mapsto> ls @ [f]) \<and>
     sent (snd (addListener h s p f oc)) = sent s"
  using assms by (cases oc) (simp_all add: addListener_def lookup_def complete_def)

lemma addListeners_more:
  "priv s = Some pr \<Longrightarrow> listeners pr p = Some ls \<Longrightarrow>
   \<exists>pr'. fst (addListeners h s p f ocs) = Ok () \<and>
     priv (snd (addListeners h s p f ocs)) = Some pr' \<and>
     listeners pr' p = Some (ls @ replicate (length ocs) f) \<and>
     sent (snd (addListeners h s p f ocs)) = sent s"
proof (induction ocs arbitrary: s pr ls)
  case Nil
  then show ?case by simp
next
  case (Cons oc ocs)
  from addListener_more [OF Cons.prems, of h f oc]
  obtain pr1 where 1: "fst (addListener h s p f oc) = Ok ()"
    "priv (snd (addListener h s p f oc)) = Some pr1"
    "listeners pr1 = (listeners pr)(p \<mapsto> ls @ [f])"
    "sent (snd (addListener h s p f oc)) = sent s" by blast
  from 1(3) have "listeners pr1 p = Some (ls @ [f])" by simp
  from Cons.IH [OF 1(2) this] 1(1,4) show ?case
    by (simp add: replicate_app_Cons_same)
qed

lemma removeListener_keep:
  assumes "priv s = Some pr" "listeners pr p = Some (replicate (Suc (Suc n)) f)"
  shows "\<exists>pr'. fst (removeListener h s p (Some f) oc) = Ok () \<and>
     priv (snd (removeListener h s p (Some f) oc)) = Some pr' \<and>
     listeners pr' p = Some (replicate (Suc n) f) \<and>
     sent (snd (removeListener h s p (Some f) oc)) = sent s"
  using assms by (cases oc) (simp_all add: removeListener_def lookup_def complete_def)

lemma removeListener_last:
  assumes "priv s = Some pr" "listeners pr p = Some [f]"
  shows "\<exists>pr'. fst (removeListener h s p (Some f) oc) = Ok () \<and>
     priv (snd (removeListener h s p (Some f) oc)) = Some pr' \<and>
     listeners pr' p = None \<and>
     map kindOf (sent (snd (removeListener h s p (Some f) oc))) =
       map kindOf (sent s) @ [(''unlisten'', Some p)]"
proof -
  let ?s1 = "s\<lparr>priv := Some (pr\<lparr>listeners := (listeners pr)(p := None)\<rparr>)\<rparr>"
  have a: "removeListener h s p (Some f) oc = ignore (sendRequest h ?s1 ''unlisten'' p oc JsUndefined)"
    using assms by (simp add: removeListener_def lookup_def)
  have "priv ?s1 = Some (pr\<lparr>listeners := (listeners pr)(p := None)\<rparr>)" by simp
  from sendRequest_effect [OF this, of h "''unlisten''" p oc JsUndefined]
  show ?thesis unfolding a by (auto simp: ignore_def)
qed

lemma removeListeners_keep:
  "priv s = Some pr \<Longrightarrow> listeners pr p = Some (replicate (Suc (length ocs + n)) f) \<Longrightarrow>
   \<exists>pr'. fst (removeListeners h s p (Some f) ocs) = Ok () \<and>
     priv (snd (removeListeners h s p (Some f) ocs)) = Some pr' \<and>
     listeners pr' p = Some (replicate (Suc n) f) \<and>
     sent (snd (removeListeners h s p (Some f) ocs)) = sent s"
proof (induction ocs arbitrary: s pr)
  case Nil
  then show ?case by simp
next
  case (Cons oc ocs)
  from Cons.prems(2) have "listeners pr p = Some (replicate (Suc (Suc (length ocs + n))) f)"
    by simp
  from removeListener_keep [OF Cons.prems(1) this, of h oc]
  obtain pr1 where 1: "fst (removeListener h s p (Some f) oc) = Ok ()"
    "priv (snd (removeListener h s p (Some f) oc)) = Some pr1"
    "listeners pr1 p = Some (replicate (Suc (length ocs + n)) f)"
    "sent (snd (removeListener h s p (Some f) oc)) = sent s" by blast
  from Cons.IH [OF 1(2,3)] 1(1,4) show ?case by simp
qed

lemma removeListeners_append:
  "removeListeners h s p f (xs @ ys) =
     (if fst (removeListeners h s p f xs) = Ok ()
      then removeListeners h (snd (removeListeners h s p f xs)) p f ys
      else removeListeners h s p f xs)"
  by (induction xs arbitrary: s) simp_all

lemma removeListeners_all:
  assumes "priv s = Some pr" "listeners pr p = Some (replicate (Suc (length ocs)) f)"
  shows "\<exists>pr'. fst (removeListeners h s p (Some f) (ocs @ [oc])) = Ok () \<and>
     priv (snd (removeListeners h s p (Some f) (ocs @ [oc]))) = Some pr' \<and>
     listeners pr' p = None \<and>
     map kindOf (sent (snd (removeListeners h s p (Some f) (ocs @ [oc])))) =
       map kindOf (sent s) @ [(''unlisten'', Some p)]"
proof -
  from assms(2) have "listeners pr p = Some (replicate (Suc (length ocs + 0)) f)" by simp
  from removeListeners_keep [OF assms(1) this, of h]
  obtain pr1 where 1: "fst (removeListeners h s p (Some f) ocs) = Ok ()"
    "priv (snd (removeListeners h s p (Some f) ocs)) = Some pr1"
    "listeners pr1 p = Some (replicate (Suc 0) f)"
    "sent (snd (removeListeners h s p (Some f) ocs)) = sent s" by blast
  from 1(3) have "listeners pr1 p = Some [f]" by simp
  from removeListener_last [OF 1(2) this, of h oc] 1(1,4)
  show ?thesis by (simp add: removeListeners_append)
qed

lemma addListeners_fresh:
  assumes "priv s = Some pr" "listeners pr p = None" "\<not> inherited p" "ocs \<noteq> []"
  shows "\<exists>pr'. fst (addListeners h s p f ocs) = Ok () \<and>
     priv (snd (addListeners h s p f ocs)) = Some pr' \<and>
     listeners pr' p = Some (replicate (length ocs) f) \<and>
     map kindOf (sent (snd (addListeners h s p f ocs))) =
       map kindOf (sent s) @ [(''listen'', Some p)]"
proof -
  from assms(4) obtain oc rest where ocs: "ocs = oc # rest" by (cases ocs) auto
  from addListener_first [OF assms(1-3), of h f oc]
  obtain pr1 where 1: "fst (addListener h s p f oc) = Ok ()"
    "priv (snd (addListener h s p f oc)) = Some pr1"
    "listeners pr1 = (listeners pr)(p \<mapsto> [f])"
    "map kindOf (sent (snd (addListener h s p f oc))) = map kindOf (sent s) @ [(''listen'', Some p)]"
    by blast
  from 1(3) have "listeners pr1 p = Some [f]" by simp
  from addListeners_more [OF 1(2) this, of h f rest] 1(1,4)
  show ?thesis by (auto simp: ocs)
qed

text \<open>
  One remote subscription per path. Let the path \<open>p\<close> have no registration and not be the
  name of a member that every object inherits from \<^verbatim>\<open>Object.prototype\<close>. Then N > 0 calls
  \<^verbatim>\<open>addListener(p, f)\<close> succeed and send exactly one request, a \<^verbatim>\<open>listen\<close> for \<open>p\<close>
  (the first call sends it: the statement holds for every N > 0), and the calls
  \<^verbatim>\<open>removeListener(p, f)\<close> that follow succeed and send nothing as long as there are fewer
  than N of them; the N-th sends the one \<^verbatim>\<open>unlisten\<close> for \<open>p\<close>. So at every moment the
  requests sent for \<open>p\<close> are one \<^verbatim>\<open>listen\<close>, or one \<^verbatim>\<open>listen\<close> and one \<^verbatim>\<open>unlisten\<close>.
\<close>

lemma one_listen_one_unlisten:
  assumes "priv s = Some pr" and "listeners pr p = None" and "\<not> inherited p"
    and "ocs \<noteq> []" and "length ocs' \<le> length ocs"
  shows "fst (addListeners h s p f ocs) = Ok () \<and>
     map kindOf (sent (snd (addListeners h s p f ocs))) =
       map kindOf (sent s) @ [(''listen'', Some p)] \<and>
     fst (removeListeners h (snd (addListeners h s p f ocs)) p (Some f) ocs') = Ok () \<and>
     map kindOf (sent (snd (removeListeners h (snd (addListeners h s p f ocs)) p (Some f) ocs'))) =
       map kindOf (sent s) @ [(''listen'', Some p)] @
         (if length ocs' = length ocs then [(''unlisten'', Some p)] else [])"
proof -
  let ?s1 = "snd (addListeners h s p f ocs)"
  from addListeners_fresh [OF assms(1-4), of h f]
  obtain pr1 where 1: "fst (addListeners h s p f ocs) = Ok ()"
    "priv ?s1 = Some pr1"
    "listeners pr1 p = Some (replicate (length ocs) f)"
    "map kindOf (sent ?s1) = map kindOf (sent s) @ [(''listen'', Some p)]"
    by blast
  show ?thesis
  proof (cases "length ocs' = length ocs")
    case True
    with assms(4) obtain init oc where o: "ocs' = init @ [oc]"
      by (cases ocs' rule: rev_cases) auto
    with True 1(3) have "listeners pr1 p = Some (replicate (Suc (length init)) f)" by simp
    from removeListeners_all [OF 1(2) this, of h oc] 1(1,4) True o
    show ?thesis by auto
  next
    case False
    with assms(5) have "length ocs' < length ocs" by simp
    then obtain m where m: "length ocs = Suc (length ocs' + m)"
      by (auto simp: less_iff_Suc_add)
    from 1(3) have "listeners pr1 p = Some (replicate (Suc (length ocs' + m)) f)"
      by (simp only: m)
    from removeListeners_keep [OF 1(2) this, of h] 1(1,4) False
    show ?thesis by auto
  qed
qed

lemma one_listen_one_unlisten_example:
  "priv (CogSocket JsNull) \<noteq> None \<and> \<not> inherited ''cam0/hmi/stateChanged'' \<and>
   map kindOf (sent (snd (addListeners demoHost (CogSocket JsNull) ''cam0/hmi/stateChanged'' 7
       [None, Some 1, None]))) = [(''listen'', Some ''cam0/hmi/stateChanged'')] \<and>
   map kindOf (sent (snd (removeListeners demoHost
       (snd (addListeners demoHost (CogSocket JsNull) ''cam0/hmi/stateChanged'' 7 [None, Some 1, None]))
       ''cam0/hmi/stateChanged'' (Some 7) [None, None, Some 2]))) =
     [(''listen'', Some ''cam0/hmi/stateChanged''), (''unlisten'', Some ''cam0/hmi/stateChanged'')]"
  using one_listen_one_unlisten [of "CogSocket JsNull" _ "''cam0/hmi/stateChanged''"
      "[None, Some 1, None]" "[None, None, Some 2]" demoHost 7]
  by (simp add: CogSocket_def newPriv_def inherited_def objectPrototype_def)

text \<open>
  C1 speaks of every path, and the code does not do for every path what the lemma above
  says. The table \<^verbatim>\<open>priv.listeners\<close> is a plain object, so for the path
  \<^verbatim>\<open>"constructor"\<close> the lookup finds the inherited member; it is truthy and has no
  \<^verbatim>\<open>push\<close>: the first \<^verbatim>\<open>addListener\<close> on a new engine raises a TypeError, and no
  \<^verbatim>\<open>listen\<close> is sent.
\<close>

theorem addListener_inherited_path_raises:
  "fst (addListener demoHost (CogSocket JsNull) ''constructor'' 7 None) =
     Raise (JsError JsUndefined ''TypeError'') \<and>
   sent (snd (addListener demoHost (CogSocket JsNull) ''constructor'' 7 None)) = []"
  by (simp add: addListener_def CogSocket_def newPriv_def lookup_def inherited_def objectPrototype_def
      rtError_def demoHost_def)


section \<open>Reading back what was written\<close>

lemma walk_undefined: "walk h JsUndefined ks \<noteq> Ok (JsObj ps)"
  by (cases ks) simp_all

lemma getMember_Ok:
  assumes "getMember h r k = Ok c"
  shows "\<exists>qs. r = JsObj qs \<and> (map_of qs k = Some c \<or> (map_of qs k = None \<and> c = JsUndefined))"
  using assms by (cases r) (auto split: option.splits if_splits)

lemma walk_updateAt:
  "walk h r loc = Ok (JsObj ps) \<Longrightarrow> walk h (updateAt r loc v) loc = Ok v"
proof (induction loc arbitrary: r)
  case Nil
  then show ?case by simp
next
  case (Cons k ks)
  from Cons.prems obtain c where g: "getMember h r k = Ok c" and w: "walk h c ks = Ok (JsObj ps)"
    by (auto split: res.splits)
  from getMember_Ok [OF g] w obtain qs where r: "r = JsObj qs" and m: "map_of qs k = Some c"
    by (auto simp: walk_undefined)
  from Cons.IH [OF w] have "walk h (updateAt c ks v) ks = Ok v" .
  then show ?case by (simp add: r m update_conv')
qed

lemma truthy_updateAt: "truthy r \<Longrightarrow> truthy (updateAt r loc (JsObj qs))"
  by (cases "(r, loc, JsObj qs)" rule: updateAt.cases) (auto split: option.splits)

lemma isError_ofJson: "\<not> isError (ofJson j)"
  by (cases j) simp_all

lemma isError_field: "\<not> isError (field b)"
  by (cases b) (simp_all add: field_def isError_ofJson)

lemma sendResponse_Ok: "priv s = Some p \<Longrightarrow> fst (sendResponse h s rid body) = Ok ()"
  by (cases body) (simp_all add: sendResponse_def Let_def)

lemma socketMessage_Ok:
  assumes "fst (fst (tryBlock h (logIf s LogOnMessage) ev)) = Ok ()"
  shows "socketMessage h s ev = fst (tryBlock h (logIf s LogOnMessage) ev)"
  using assms by (simp add: socketMessage_def)

lemma sendResponse_plain:
  assumes "priv s = Some p" "truthyId rid" "\<not> isError body"
  shows "sendResponse h s rid body =
     (Ok (), (logIf s (LogSend \<lparr>wtype = ''resp'', wid = rid, wpath = None, wbody = body,
                        werror = JsUndefined\<rparr>))
         \<lparr>sent := sent s @ [TextFrame \<lparr>wtype = ''resp'', wid = rid, wpath = None, wbody = body,
                        werror = JsUndefined\<rparr>]\<rparr>)"
  using assms by (cases body) (simp_all add: sendResponse_def logIf_def Let_def)

lemma sendResponse_priv:
  "priv (snd (sendResponse h s rid body)) = priv s"
  by (cases "priv s"; cases body) (simp_all add: sendResponse_def logIf_def Let_def)

lemma parsePath_root:
  assumes "priv s = Some p" "truthy (root p)" "take 2 path \<noteq> ''@/''"
    "walk h (root p) (butlast (splitSlash (stripSlash path))) = Ok obj"
  shows "parsePath h s (Some path) =
     Ok \<lparr>pbase = RootBase, ploc = butlast (splitSlash (stripSlash path)), pobj = obj,
         pprop = last (splitSlash (stripSlash path))\<rparr>"
  using assms by (simp add: parsePath_def Let_def)

text \<open>
  C7. Let the path \<open>path\<close> lead, from the root graph, through members that are plain
  objects to an object that has the last part of the path as a member. Then an inbound
  \<^verbatim>\<open>put\<close> for the path with body \<open>v\<close> (any JSON value, or none) is handled without an
  exception, and the \<^verbatim>\<open>get\<close> for the same path that follows is answered by one
  response, addressed to the id of the \<^verbatim>\<open>get\<close>, without an error code, whose body is \<open>v\<close>.
\<close>

theorem get_after_put:
  assumes "priv s = Some p" and "truthy (root p)" and "take 2 path \<noteq> ''@/''"
    and "walk h (root p) (butlast (splitSlash (stripSlash path))) = Ok (JsObj ps)"
    and "map_of ps (last (splitSlash (stripSlash path))) = Some old"
    and "mtype m1 = ''put''" and "mpath m1 = Some path" and "mbody m1 = v"
    and "mtype m2 = ''get''" and "mpath m2 = Some path" and "mid m2 = Some i" and "i \<noteq> 0"
  shows "fst (socketMessage h s (Parsed m1)) = Ok () \<and>
         fst (socketMessage h (snd (socketMessage h s (Parsed m1))) (Parsed m2)) = Ok () \<and>
         sent (snd (socketMessage h (snd (socketMessage h s (Parsed m1))) (Parsed m2))) =
           sent (snd (socketMessage h s (Parsed m1))) @
             [TextFrame \<lparr>wtype = ''resp'', wid = Some i, wpath = None, wbody = field v,
                         werror = JsUndefined\<rparr>]"
proof -
  let ?parts = "splitSlash (stripSlash path)"
  let ?obj = "JsObj (AList.update (last ?parts) (field v) ps)"
  let ?root = "updateAt (root p) (butlast ?parts) ?obj"
  let ?s0 = "logIf (logIf s LogOnMessage) (LogGot (Parsed m1))"
  let ?sp = "?s0\<lparr>priv := Some (p\<lparr>root := ?root\<rparr>)\<rparr>"
  have p0: "priv ?s0 = Some p" using assms(1) by (simp add: logIf_def)
  have pp: "parsePath h ?s0 (Some path) =
     Ok \<lparr>pbase = RootBase, ploc = butlast ?parts, pobj = JsObj ps, pprop = last ?parts\<rparr>"
    using parsePath_root [OF p0 assms(2,3,4)] .
  have sm: "setMember h ?s0 \<lparr>pbase = RootBase, ploc = butlast ?parts, pobj = JsObj ps,
       pprop = last ?parts\<rparr> (field v) = (Ok (), ?sp)"
    using p0 assms(5) by (simp add: setMember_def)
  have ok1: "fst (sendResponse h ?sp (mid m1) JsUndefined) = Ok ()"
    by (rule sendResponse_Ok) simp
  have tb1: "fst (tryBlock h (logIf s LogOnMessage) (Parsed m1)) =
      sendResponse h ?sp (mid m1) JsUndefined"
    using assms(6,7,8) pp sm
    by (simp add: tryBlock_def dispatch_def handlePut_def Let_def)
  have put: "socketMessage h s (Parsed m1) = sendResponse h ?sp (mid m1) JsUndefined"
    using socketMessage_Ok [of h s "Parsed m1"] tb1 ok1 by simp
  let ?s1 = "snd (socketMessage h s (Parsed m1))"
  have p1: "priv ?s1 = Some (p\<lparr>root := ?root\<rparr>)"
    unfolding put by (simp add: sendResponse_priv)
  let ?s2 = "logIf (logIf ?s1 LogOnMessage) (LogGot (Parsed m2))"
  have p2: "priv ?s2 = Some (p\<lparr>root := ?root\<rparr>)" using p1 by (simp add: logIf_def)
  have s2: "sent ?s2 = sent ?s1" by (simp add: logIf_def)
  have t: "truthy (root (p\<lparr>root := ?root\<rparr>))" using truthy_updateAt [OF assms(2)] by simp
  have w: "walk h (root (p\<lparr>root := ?root\<rparr>)) (butlast ?parts) = Ok ?obj"
    using walk_updateAt [OF assms(4)] by simp
  have pp2: "parsePath h ?s2 (Some path) =
     Ok \<lparr>pbase = RootBase, ploc = butlast ?parts, pobj = ?obj, pprop = last ?parts\<rparr>"
    using parsePath_root [OF p2 t assms(3) w] .
  have gm: "getMember h ?obj (last ?parts) = Ok (field v)"
    by (simp add: update_conv')
  have tb2: "fst (tryBlock h (logIf ?s1 LogOnMessage) (Parsed m2)) =
      sendResponse h ?s2 (Some i) (field v)"
    using assms(9,10,11) pp2 gm
    by (simp add: tryBlock_def dispatch_def handleGet_def Let_def)
  have get: "socketMessage h ?s1 (Parsed m2) = sendResponse h ?s2 (Some i) (field v)"
    using socketMessage_Ok [of h ?s1 "Parsed m2"] tb2 sendResponse_Ok [OF p2, of h "Some i" "field v"]
    by simp
  have sr: "sendResponse h ?s2 (Some i) (field v) =
     (Ok (), (logIf ?s2 (LogSend \<lparr>wtype = ''resp'', wid = Some i, wpath = None, wbody = field v,
                        werror = JsUndefined\<rparr>))
         \<lparr>sent := sent ?s2 @ [TextFrame \<lparr>wtype = ''resp'', wid = Some i, wpath = None, wbody = field v,
                        werror = JsUndefined\<rparr>]\<rparr>)"
    using sendResponse_plain [OF p2, of "Some i" "field v" h] assms(12)
    by (simp add: isError_field)
  show ?thesis
    using ok1 put get sr s2 by simp
qed

theorem get_after_put_witness:
  "(let s = CogSocket demoRoot;
        m1 = \<lparr>mtype = ''put'', mid = Some 2, mpath = Some ''a/b/x'',
              mbody = Some (JObj [(''k'', JArr [JNum 2, JNull])]), merror = None\<rparr>;
        m2 = \<lparr>mtype = ''get'', mid = Some 3, mpath = Some ''a/b/x'', mbody = None,
              merror = None\<rparr>
    in walk demoHost demoRoot [''a'', ''b''] =
         Ok (JsObj [(''op'', JsFun (UserFn ''op'')), (''fail'', JsFun (UserFn ''fail'')),
                    (''error'', JsFun (UserFn ''error'')), (''x'', JsNum 1)]) \<and>
       sent (snd (socketMessage demoHost (snd (socketMessage demoHost s (Parsed m1))) (Parsed m2))) =
         sent (snd (socketMessage demoHost s (Parsed m1))) @
           [TextFrame \<lparr>wtype = ''resp'', wid = Some 3, wpath = None,
              wbody = JsObj [(''k'', JsArr [JsNum 2, JsNull])], werror = JsUndefined\<rparr>])"
  using get_after_put
    [of "CogSocket demoRoot" "newPriv demoRoot" "''a/b/x''" demoHost
        "[(''op'', JsFun (UserFn ''op'')), (''fail'', JsFun (UserFn ''fail'')),
          (''error'', JsFun (UserFn ''error'')), (''x'', JsNum 1)]" "JsNum 1"
        "\<lparr>mtype = ''put'', mid = Some 2, mpath = Some ''a/b/x'',
          mbody = Some (JObj [(''k'', JArr [JNum 2, JNull])]), merror = None\<rparr>"
        "Some (JObj [(''k'', JArr [JNum 2, JNull])])"
        "\<lparr>mtype = ''get'', mid = Some 3, mpath = Some ''a/b/x'', mbody = None,
          merror = None\<rparr>" 3]
  by (simp add: CogSocket_def newPriv_def demoRoot_def stripSlash_def field_def Let_def)

section \<open>Paths that do not resolve\<close>

lemma logIf_fields [simp]:
  "priv (logIf s e) = priv s" "sent (logIf s e) = sent s"
  "completed (logIf s e) = completed s" "notified (logIf s e) = notified s"
  "closeCalls (logIf s e) = closeCalls s" "log (logIf s e) = log s"
  by (simp_all add: logIf_def)



lemma socketMessage_Raise:
  assumes "fst (fst (tryBlock h (logIf s LogOnMessage) ev)) = Raise ex"
  shows "socketMessage h s ev =
     catchBlock h (snd (fst (tryBlock h (logIf s LogOnMessage) ev)))
       (snd (tryBlock h (logIf s LogOnMessage) ev)) ex"
  using assms by (simp add: socketMessage_def)

lemma catchBlock_error:
  assumes "priv s = Some p"
  shows "catchBlock h s rid (JsError n t) =
     (Ok (), if truthyId rid
       then (logIf (logIf s (LogException (JsError n t)))
               (LogSend \<lparr>wtype = ''resp'', wid = rid, wpath = None, wbody = JsStr t,
                         werror = (if truthy n then n else JsNum (- 1))\<rparr>))
            \<lparr>sent := sent s @ [TextFrame \<lparr>wtype = ''resp'', wid = rid, wpath = None,
                 wbody = JsStr t, werror = (if truthy n then n else JsNum (- 1))\<rparr>]\<rparr>
       else logIf s (LogException (JsError n t)))"
  using assms by (simp add: catchBlock_def sendResponse_def logIf_def Let_def)






section \<open>The connection object\<close>

text \<open>No inbound message changes the connection object: each step of the handler keeps it.\<close>

lemma conn_logIf [simp]: "connectionOf (logIf s e) = connectionOf s"
  by (simp add: connectionOf_def)

lemma conn_sendResponse [simp]: "connectionOf (snd (sendResponse h s rid b)) = connectionOf s"
  by (simp add: connectionOf_def sendResponse_priv)

lemma conn_setMember [simp]: "connectionOf (snd (setMember h s pa v)) = connectionOf s"
  by (auto simp: connectionOf_def setMember_def split: jsval.splits base.splits option.splits)

lemma conn_invoke [simp]: "connectionOf (snd (invoke h s f this args)) = connectionOf s"
  by (cases f)
     (auto simp: connectionOf_def hello_def eventSender_def Let_def split: option.splits)

lemma conn_applyMethod [simp]:
  "connectionOf (snd (applyMethod h s fv via this args)) = connectionOf s"
  by (cases fv) (simp_all add: applyMethod_def)

lemma conn_callMember [simp]:
  "connectionOf (snd (callMember h s obj name args)) = connectionOf s"
  by (auto simp: callMember_def split: res.splits jsval.splits)

lemma conn_handleGet [simp]: "connectionOf (snd (handleGet h s m rid)) = connectionOf s"
  by (auto simp: handleGet_def split: res.splits)

lemma conn_handlePut [simp]: "connectionOf (snd (handlePut h s m rid)) = connectionOf s"
proof (cases "parsePath h s (mpath m)")
  case (Ok pa)
  have "connectionOf (snd (setMember h s pa (field (mbody m)))) = connectionOf s" by simp
  then show ?thesis
    using Ok by (cases "setMember h s pa (field (mbody m))")
      (auto simp: handlePut_def split: res.splits)
qed (simp_all add: handlePut_def)

lemma conn_handlePost [simp]: "connectionOf (snd (handlePost h s m rid)) = connectionOf s"
proof (cases "parsePath h s (mpath m)")
  case (Ok pa)
  show ?thesis
  proof (cases "getMember h (pobj pa) (pprop pa)")
    case ok: (Ok fv)
    let ?call = "(case mbody m of
                       Some (JArr xs) \<Rightarrow>
                         applyMethod h s fv ''apply'' (pobj pa) (map ofJson xs)
                     | _ \<Rightarrow>
                         applyMethod h s fv ''call'' (pobj pa) [field (mbody m)])"
    have "connectionOf (snd ?call) = connectionOf s"
      by (simp split: option.splits json.splits)
    then show ?thesis
      using Ok ok by (cases ?call) (auto simp: handlePost_def split: res.splits)
  qed (simp_all add: handlePost_def Ok)
qed (simp_all add: handlePost_def)

lemma conn_handleResp [simp]: "connectionOf (snd (handleResp h s m)) = connectionOf s"
  by (auto simp: handleResp_def connectionOf_def Let_def split: option.splits)

lemma conn_handleEvent [simp]: "connectionOf (snd (handleEvent h s m rid)) = connectionOf s"
proof (cases "priv s")
  case None
  then show ?thesis by (simp add: handleEvent_def)
next
  case (Some p)
  have n: "\<And>x. connectionOf (s\<lparr>notified := x\<rparr>) = connectionOf s"
    by (simp add: connectionOf_def)
  show ?thesis
    using Some
    by (simp add: handleEvent_def Let_def n split: slot.splits option.splits)
qed

lemma conn_deleteSender [simp]: "connectionOf (deleteSender s k) = connectionOf s"
  by (simp add: deleteSender_def connectionOf_def split: option.splits)

lemma conn_handleListen [simp]: "connectionOf (snd (handleListen h s m rid)) = connectionOf s"
proof (cases "priv s")
  case None
  then show ?thesis by (simp add: handleListen_def)
next
  case (Some p)
  let ?s1 = "s\<lparr>priv := Some (p\<lparr>eventSenders :=
                 (eventSenders p)(keyOf (mpath m) \<mapsto> EventSender (mpath m))\<rparr>)\<rparr>"
  have s1: "connectionOf ?s1 = connectionOf s" using Some by (simp add: connectionOf_def)
  show ?thesis
  proof (cases "lookup (eventSenders p) (keyOf (mpath m))")
    case Absent
    show ?thesis
    proof (cases "parsePath h s (mpath m)")
      case (Ok pa)
      let ?call = "callMember h ?s1 (pobj pa) ''addListener''
                           [JsStr (pprop pa), JsFun (EventSender (mpath m))]"
      have "connectionOf (snd ?call) = connectionOf s" using s1 by simp
      then show ?thesis
        using Some Absent Ok
        by (cases ?call) (auto simp: handleListen_def split: res.splits)
    qed (simp_all add: handleListen_def Some Absent)
  qed (simp_all add: handleListen_def Some)
qed

lemma conn_handleUnlisten [simp]: "connectionOf (snd (handleUnlisten h s m rid)) = connectionOf s"
proof (cases "priv s")
  case None
  then show ?thesis by (simp add: handleUnlisten_def)
next
  case (Some p)
  show ?thesis
  proof (cases "lookup (eventSenders p) (keyOf (mpath m)) = Absent")
    case True
    then show ?thesis by (simp add: handleUnlisten_def Some)
  next
    case False
    show ?thesis
    proof (cases "parsePath h s (mpath m)")
      case (Ok pa)
      let ?call = "callMember h s (pobj pa) ''removeListener''
                           [JsStr (pprop pa),
                            JsFun (case lookup (eventSenders p) (keyOf (mpath m)) of
                                     Own f \<Rightarrow> f | _ \<Rightarrow> Builtin (keyOf (mpath m)))]"
      have "connectionOf (snd ?call) = connectionOf s" by simp
      then show ?thesis
        using Some False Ok
        by (cases ?call) (auto simp: handleUnlisten_def split: res.splits slot.splits)
    qed (use False in \<open>auto simp: handleUnlisten_def Some split: slot.splits\<close>)
  qed
qed

lemma conn_dispatch [simp]: "connectionOf (snd (dispatch h s m rid)) = connectionOf s"
  by (simp add: dispatch_def)

lemma conn_tryBlock [simp]: "connectionOf (snd (fst (tryBlock h s ev))) = connectionOf s"
proof (cases ev)
  case (ArrayBuffer bs)
  then show ?thesis by (simp add: tryBlock_def connectionOf_def split: option.splits)
next
  case (Malformed t)
  then show ?thesis by (simp add: tryBlock_def)
next
  case (Parsed m)
  then show ?thesis by (simp add: tryBlock_def Let_def)
qed

lemma conn_catchBlock [simp]: "connectionOf (snd (catchBlock h s rid ex)) = connectionOf s"
  by (simp add: catchBlock_def)









section \<open>Invoking a member\<close>





section \<open>Exceptions in the handler\<close>

text \<open>
  What the \<^verbatim>\<open>catch\<close> block achieves: an exception that is an \<^verbatim>\<open>Error\<close> instance becomes
  an error response for the id of the message, and no exception other than a thrown
  undefined or null leaves the handler of an engine that has not been closed.
\<close>

lemma caught_error_response:
  assumes "priv s = Some p"
    and "tryBlock h (logIf s LogOnMessage) ev = ((Raise (JsError n t), s1), rid)"
    and "priv s1 = Some p1" and "truthyId rid"
  shows "fst (socketMessage h s ev) = Ok () \<and>
         sent (snd (socketMessage h s ev)) =
           sent s1 @ [TextFrame \<lparr>wtype = ''resp'', wid = rid, wpath = None, wbody = JsStr t,
                                 werror = (if truthy n then n else JsNum (- 1))\<rparr>]"
  using socketMessage_Raise [of h s ev "JsError n t"] assms
    catchBlock_error [OF assms(3), of h rid n t]
  by simp

lemma tryBlock_keeps_priv:
  assumes "priv s = Some p"
  shows "\<exists>p1. priv (snd (fst (tryBlock h s ev))) = Some p1"
proof -
  have "connectionOf (snd (fst (tryBlock h s ev))) = Some (connection p)"
    using assms by (simp add: conn_tryBlock) (simp add: connectionOf_def)
  then show ?thesis by (auto simp: connectionOf_def)
qed

lemma caught_unless_nullish:
  assumes "priv s = Some p"
    and "fst (fst (tryBlock h (logIf s LogOnMessage) ev)) = Raise ex"
    and "ex \<noteq> JsUndefined" and "ex \<noteq> JsNull"
  shows "fst (socketMessage h s ev) = Ok ()"
proof -
  from assms(1) have "priv (logIf s LogOnMessage) = Some p" by simp
  from tryBlock_keeps_priv [OF this, of h ev]
  obtain p1 where "priv (snd (fst (tryBlock h (logIf s LogOnMessage) ev))) = Some p1" by blast
  then have "priv (logIf (snd (fst (tryBlock h (logIf s LogOnMessage) ev))) (LogException ex)) =
      Some p1" by simp
  from sendResponse_Ok [OF this] assms(3,4) show ?thesis
    by (simp add: socketMessage_Raise [OF assms(2)] catchBlock_def)
qed


text \<open>
  C3 does not hold for an exception that is not an \<^verbatim>\<open>Error\<close> instance. The member
  \<^verbatim>\<open>a/b/fail\<close> throws the string \<^verbatim>\<open>"bad"\<close>; the \<^verbatim>\<open>catch\<close> block passes it to
  \<^verbatim>\<open>sendResponse\<close>, whose test \<^verbatim>\<open>body instanceof Error\<close> fails, and the response to the
  \<^verbatim>\<open>post\<close> with id 5 is \<^verbatim>\<open>{"$type":"resp","id":5,"body":"bad"}\<close>: it has no error code
  and reads as the result of a call that succeeded.
\<close>

theorem thrown_string_not_an_error_response:
  "socketMessage demoHost (CogSocket demoRoot)
     (Parsed \<lparr>mtype = ''post'', mid = Some 5, mpath = Some ''a/b/fail'', mbody = None,
              merror = None\<rparr>) =
   (Ok (), (CogSocket demoRoot)
      \<lparr>sent := [TextFrame \<lparr>wtype = ''resp'', wid = Some 5, wpath = None, wbody = JsStr ''bad'',
                           werror = JsUndefined\<rparr>]\<rparr>)"
  by (simp add: socketMessage_def tryBlock_def dispatch_def handlePost_def parsePath_def
      applyMethod_def catchBlock_def CogSocket_def newPriv_def demoRoot_def demoHost_def
      stripSlash_def sendResponse_def logIf_def Let_def)


end
